theory Spec2Isabelle
  imports Main
begin

unbundle bit_operations_syntax

section \<open>The ring buffer of ring\_buffer.h\<close>

text \<open>
  The class \<open>RingBuffer<T, buffer_size, allow_overwrite, lock, unlock>\<close> is embedded with
  explicit state passing. The template parameters \<open>buffer_size\<close> and \<open>allow_overwrite\<close>
  are the first two arguments of every operation (\<open>N\<close> and \<open>ao\<close>). The lock is an external
  function pair: the argument \<open>lk\<close> of an operation is the value its call of \<open>lock()\<close>
  returns, and \<open>unlock()\<close> does not touch the buffer. Indices are \<open>size_t\<close>; they are
  modelled as \<open>nat\<close>, the mask \<open>& (buffer_size - 1)\<close> as bitwise \<open>AND\<close>. Every subtraction
  of the source is guarded by the comparison that precedes it, and with both indices below
  \<open>buffer_size\<close> no sum of the source exceeds \<open>2 * buffer_size\<close>.
\<close>

subsection \<open>Data\<close>

datatype rb_error_t =
    RB_ERROR_NONE
  | RB_ERROR_ILLEGAL
  | RB_ERROR_TIMEOUT
  | RB_ERROR_OVERWRITE

record 'v rb_result_t =
  error :: rb_error_t
  val :: 'v

record 'a RingBuffer =
  buffer :: "'a list"
  write_index :: nat
  read_index :: nat
  full :: bool

text \<open>The \<open>static_assert\<close> of the class: \<open>buffer_size && !(buffer_size & (buffer_size - 1))\<close>.\<close>

definition static_assert :: "nat \<Rightarrow> bool" where
  "static_assert N = (N \<noteq> 0 \<and> N AND (N - 1) = 0)"

text \<open>
  A freshly constructed buffer: the storage holds \<open>buffer_size\<close> elements whose values are
  not initialised (any list \<open>b\<close> of that length), both indices are 0 and \<open>full\<close> is false.
\<close>

definition constructed :: "'a list \<Rightarrow> 'a RingBuffer" where
  "constructed b = \<lparr>buffer = b, write_index = 0, read_index = 0, full = False\<rparr>"

text \<open>
  \<open>memcpy(&dst[d], &src[s], k * sizeof(T))\<close>: \<open>k\<close> elements are copied one after the other.
  A write beyond the end of \<open>dst\<close> is undefined in C++; the list update drops it.
\<close>

primrec memcpy :: "'a list \<Rightarrow> nat \<Rightarrow> 'a list \<Rightarrow> nat \<Rightarrow> nat \<Rightarrow> 'a list" where
  "memcpy dst d src s 0 = dst"
| "memcpy dst d src s (Suc k) = (memcpy dst d src s k)[d + k := src ! (s + k)]"

subsection \<open>Private helpers\<close>

definition unsafe_level :: "nat \<Rightarrow> 'a RingBuffer \<Rightarrow> nat" where
  "unsafe_level N rb =
     (if full rb then N
      else if write_index rb \<ge> read_index rb then write_index rb - read_index rb
      else N + write_index rb - read_index rb)"

definition unsafe_is_empty :: "'a RingBuffer \<Rightarrow> bool" where
  "unsafe_is_empty rb = (write_index rb = read_index rb \<and> \<not> full rb)"

definition unsafe_mark_full :: "'a RingBuffer \<Rightarrow> 'a RingBuffer" where
  "unsafe_mark_full rb = rb\<lparr>write_index := read_index rb, full := True\<rparr>"

definition unsafe_mark_empty :: "'a RingBuffer \<Rightarrow> 'a RingBuffer" where
  "unsafe_mark_empty rb = rb\<lparr>read_index := write_index rb, full := False\<rparr>"

subsection \<open>Single-item put\<close>

definition put :: "nat \<Rightarrow> bool \<Rightarrow> bool \<Rightarrow> 'a \<Rightarrow> 'a RingBuffer \<Rightarrow> rb_error_t \<times> 'a RingBuffer" where
  "put N ao lk item rb =
     (if lk then
        (let (result, do_write, rb1) =
               (if full rb then
                  (if ao then
                     (RB_ERROR_OVERWRITE, True,
                      rb\<lparr>read_index := (read_index rb + 1) AND (N - 1)\<rparr>)
                   else (RB_ERROR_ILLEGAL, False, rb))
                else (RB_ERROR_NONE, True, rb))
         in if do_write then
              (let rb2 = rb1\<lparr>buffer := (buffer rb1)[write_index rb1 := item]\<rparr>;
                   rb3 = rb2\<lparr>write_index := (write_index rb2 + 1) AND (N - 1)\<rparr>
               in (result, rb3\<lparr>full := (write_index rb3 = read_index rb3)\<rparr>))
            else (result, rb1))
      else (RB_ERROR_TIMEOUT, rb))"

subsection \<open>Bulk put\<close>

text \<open>The body of \<open>if (do_write)\<close> in the bulk put: the new state and \<open>result.value\<close>.\<close>

definition put_copy :: "nat \<Rightarrow> 'a list \<Rightarrow> nat \<Rightarrow> 'a RingBuffer \<Rightarrow> 'a RingBuffer \<times> nat" where
  "put_copy N items n_items rb =
     (if write_index rb \<ge> read_index rb then
        (let available_until_end_of_buffer = N - write_index rb in
         if n_items \<ge> available_until_end_of_buffer then
           (let b1 = memcpy (buffer rb) (write_index rb) items 0 available_until_end_of_buffer;
                n_items_remaining = n_items - available_until_end_of_buffer
            in if n_items_remaining < read_index rb then
                 (rb\<lparr>buffer := memcpy b1 0 items available_until_end_of_buffer n_items_remaining,
                     write_index := n_items_remaining\<rparr>,
                  n_items)
               else
                 (unsafe_mark_full
                    (rb\<lparr>buffer := memcpy b1 0 items available_until_end_of_buffer (read_index rb)\<rparr>),
                  available_until_end_of_buffer + read_index rb))
         else
           (rb\<lparr>buffer := memcpy (buffer rb) (write_index rb) items 0 n_items,
               write_index := write_index rb + n_items\<rparr>,
            n_items))
      else
        (let available = read_index rb - write_index rb in
         if n_items < available then
           (rb\<lparr>buffer := memcpy (buffer rb) (write_index rb) items 0 n_items,
               write_index := write_index rb + n_items\<rparr>,
            n_items)
         else
           (unsafe_mark_full
              (rb\<lparr>buffer := memcpy (buffer rb) (write_index rb) items 0 available\<rparr>),
            available)))"

definition put_many ::
  "nat \<Rightarrow> bool \<Rightarrow> bool \<Rightarrow> 'a list \<Rightarrow> nat \<Rightarrow> 'a RingBuffer \<Rightarrow> nat rb_result_t \<times> 'a RingBuffer" where
  "put_many N ao lk items n_items rb =
     (if lk then
        (let (err, do_write, rb1) =
               (if full rb then
                  (if ao then
                     (RB_ERROR_OVERWRITE, True,
                      rb\<lparr>read_index := (read_index rb + min n_items N) AND (N - 1)\<rparr>)
                   else (RB_ERROR_NONE, False, rb))
                else (RB_ERROR_NONE, True, rb))
         in if do_write then
              (let (rb2, v) = put_copy N items n_items rb1
               in (\<lparr>error = err, val = v\<rparr>, rb2))
            else (\<lparr>error = err, val = 0\<rparr>, rb1))
      else (\<lparr>error = RB_ERROR_TIMEOUT, val = 0\<rparr>, rb))"

subsection \<open>Single-item get\<close>

text \<open>\<open>T0\<close> stands for the value-initialised \<open>T()\<close> the result starts with.\<close>

definition get :: "nat \<Rightarrow> bool \<Rightarrow> 'a \<Rightarrow> 'a RingBuffer \<Rightarrow> 'a rb_result_t \<times> 'a RingBuffer" where
  "get N lk T0 rb =
     (if lk then
        (if unsafe_is_empty rb then (\<lparr>error = RB_ERROR_ILLEGAL, val = T0\<rparr>, rb)
         else
           (\<lparr>error = RB_ERROR_NONE, val = buffer rb ! read_index rb\<rparr>,
            rb\<lparr>read_index := (read_index rb + 1) AND (N - 1), full := False\<rparr>))
      else (\<lparr>error = RB_ERROR_TIMEOUT, val = T0\<rparr>, rb))"

subsection \<open>Bulk get\<close>

text \<open>
  The caller's array \<open>items\<close> is an argument and a result: the function returns the
  result pair, the array after the copies and the new state.
\<close>

definition get_many ::
  "nat \<Rightarrow> bool \<Rightarrow> 'a list \<Rightarrow> nat \<Rightarrow> 'a RingBuffer \<Rightarrow> nat rb_result_t \<times> 'a list \<times> 'a RingBuffer" where
  "get_many N lk items n_items rb =
     (if lk then
        (if unsafe_is_empty rb then (\<lparr>error = RB_ERROR_NONE, val = 0\<rparr>, items, rb)
         else if write_index rb > read_index rb then
           (let available = write_index rb - read_index rb in
            if n_items < available then
              (\<lparr>error = RB_ERROR_NONE, val = n_items\<rparr>,
               memcpy items 0 (buffer rb) (read_index rb) n_items,
               rb\<lparr>read_index := read_index rb + n_items\<rparr>)
            else
              (\<lparr>error = RB_ERROR_NONE, val = available\<rparr>,
               memcpy items 0 (buffer rb) (read_index rb) available,
               unsafe_mark_empty rb))
         else
           (let available_until_end_of_buffer = N - read_index rb in
            if n_items \<ge> available_until_end_of_buffer then
              (let items1 = memcpy items 0 (buffer rb) (read_index rb) available_until_end_of_buffer;
                   n_items_remaining = n_items - available_until_end_of_buffer
               in if n_items_remaining < write_index rb then
                    (\<lparr>error = RB_ERROR_NONE, val = n_items\<rparr>,
                     memcpy items1 available_until_end_of_buffer (buffer rb) 0 n_items_remaining,
                     rb\<lparr>read_index := n_items_remaining\<rparr>)
                  else
                    (\<lparr>error = RB_ERROR_NONE, val = available_until_end_of_buffer + write_index rb\<rparr>,
                     memcpy items1 available_until_end_of_buffer (buffer rb) 0 (write_index rb),
                     unsafe_mark_empty rb))
            else
              (\<lparr>error = RB_ERROR_NONE, val = n_items\<rparr>,
               memcpy items 0 (buffer rb) (write_index rb) n_items,
               rb\<lparr>read_index := read_index rb + n_items\<rparr>)))
      else (\<lparr>error = RB_ERROR_TIMEOUT, val = 0\<rparr>, items, rb))"

subsection \<open>Reset and diagnostics\<close>

definition reset :: "bool \<Rightarrow> 'a RingBuffer \<Rightarrow> rb_error_t \<times> 'a RingBuffer" where
  "reset lk rb =
     (if lk then (RB_ERROR_NONE, rb\<lparr>write_index := read_index rb, full := False\<rparr>)
      else (RB_ERROR_TIMEOUT, rb))"

definition is_empty :: "bool \<Rightarrow> 'a RingBuffer \<Rightarrow> bool rb_result_t" where
  "is_empty lk rb =
     (if lk then \<lparr>error = RB_ERROR_NONE, val = unsafe_is_empty rb\<rparr>
      else \<lparr>error = RB_ERROR_TIMEOUT, val = True\<rparr>)"

definition is_full :: "'a RingBuffer \<Rightarrow> bool" where
  "is_full rb = full rb"

definition level :: "nat \<Rightarrow> bool \<Rightarrow> 'a RingBuffer \<Rightarrow> nat rb_result_t" where
  "level N lk rb =
     (if lk then \<lparr>error = RB_ERROR_NONE, val = unsafe_level N rb\<rparr>
      else \<lparr>error = RB_ERROR_TIMEOUT, val = 0\<rparr>)"

definition available :: "nat \<Rightarrow> bool \<Rightarrow> 'a RingBuffer \<Rightarrow> nat rb_result_t" where
  "available N lk rb =
     (if lk then \<lparr>error = RB_ERROR_NONE, val = N - unsafe_level N rb\<rparr>
      else \<lparr>error = RB_ERROR_TIMEOUT, val = 0\<rparr>)"

subsection \<open>Sequences of operations\<close>

text \<open>
  A call of one of the state-changing member functions, with the value its \<open>lock()\<close>
  returns. \<open>exec\<close> is the state after the call, \<open>run\<close> the state after a sequence of
  calls; the states \<open>run N ao T0 ops (constructed b)\<close> are the reachable ones.
\<close>

datatype 'a operation =
    Put bool 'a
  | PutMany bool "'a list" nat
  | Get bool
  | GetMany bool "'a list" nat
  | Reset bool

fun exec :: "nat \<Rightarrow> bool \<Rightarrow> 'a \<Rightarrow> 'a RingBuffer \<Rightarrow> 'a operation \<Rightarrow> 'a RingBuffer" where
  "exec N ao T0 rb (Put lk item) = snd (put N ao lk item rb)"
| "exec N ao T0 rb (PutMany lk items n_items) = snd (put_many N ao lk items n_items rb)"
| "exec N ao T0 rb (Get lk) = snd (get N lk T0 rb)"
| "exec N ao T0 rb (GetMany lk items n_items) = snd (snd (get_many N lk items n_items rb))"
| "exec N ao T0 rb (Reset lk) = snd (reset lk rb)"

definition run :: "nat \<Rightarrow> bool \<Rightarrow> 'a \<Rightarrow> 'a operation list \<Rightarrow> 'a RingBuffer \<Rightarrow> 'a RingBuffer" where
  "run N ao T0 ops rb = foldl (exec N ao T0) rb ops"

text \<open>\<open>k\<close> calls of \<open>get()\<close> in a row with the lock free, as the loops of the tests make them.\<close>

fun get_loop :: "nat \<Rightarrow> 'a \<Rightarrow> nat \<Rightarrow> 'a RingBuffer \<Rightarrow> 'a rb_result_t list \<times> 'a RingBuffer" where
  "get_loop N T0 0 rb = ([], rb)"
| "get_loop N T0 (Suc k) rb =
     (let (r, rb1) = get N True T0 rb;
          (rs, rb2) = get_loop N T0 k rb1
      in (r # rs, rb2))"

subsection \<open>Invariant and abstraction\<close>

text \<open>Both indices are below the capacity.\<close>

definition idx_inv :: "nat \<Rightarrow> 'a RingBuffer \<Rightarrow> bool" where
  "idx_inv N rb = (write_index rb < N \<and> read_index rb < N)"

text \<open>
  The unread elements, oldest first: \<open>unsafe_level\<close> many slots, from \<open>read_index\<close> on,
  around the end of the array.
\<close>

definition contents :: "nat \<Rightarrow> 'a RingBuffer \<Rightarrow> 'a list" where
  "contents N rb =
     map (\<lambda>i. buffer rb ! ((read_index rb + i) mod N)) [0..<unsafe_level N rb]"

section \<open>Basic facts\<close>

lemma length_memcpy: "length (memcpy dst d src s k) = length dst"
  by (induction k) simp_all

lemma nth_memcpy:
  "i < length dst \<Longrightarrow>
   memcpy dst d src s k ! i = (if d \<le> i \<and> i < d + k then src ! (s + (i - d)) else dst ! i)"
  by (induction k) (auto simp: length_memcpy nth_list_update less_Suc_eq)

lemma and_nat_le2: "(x::nat) AND y \<le> y"
proof -
  have "int x AND int y \<le> int y" by (rule AND_upper2) simp
  then have "int (x AND y) \<le> int y" by (simp add: of_nat_and_eq)
  then show ?thesis by simp
qed

lemma and_mask_less: "N \<noteq> 0 \<Longrightarrow> (x::nat) AND (N - 1) < N"
  using and_nat_le2 [of x "N - 1"] by simp

lemma and_mask_less_Suc: "N \<noteq> 0 \<Longrightarrow> (x::nat) AND (N - Suc 0) < N"
  using and_mask_less [of N x] by simp

text \<open>The numbers the \<open>static_assert\<close> admits are the powers of two.\<close>

lemma static_assert_pow2: "static_assert N \<Longrightarrow> \<exists>k. N = 2 ^ k"
proof (induction N rule: less_induct)
  case (less N)
  show ?case
  proof (cases "even N")
    case True
    then obtain m where m: "N = 2 * m" by auto
    with less.prems have m0: "m \<noteq> 0" by (auto simp: static_assert_def)
    have pred: "N - 1 = 2 * (m - 1) + 1" using m m0 by simp
    have "N AND (N - 1) = 2 * (m AND (m - 1))"
      unfolding pred unfolding m by (subst and_nat_rec) simp
    with less.prems have "static_assert m" using m0 by (simp add: static_assert_def)
    moreover have "m < N" using m m0 by simp
    ultimately obtain k where "m = 2 ^ k" using less.IH by blast
    then have "N = 2 ^ Suc k" using m by simp
    then show ?thesis by blast
  next
    case False
    then obtain m where m: "N = 2 * m + 1" by (auto elim: oddE)
    have "N AND (N - 1) = 2 * m"
      unfolding m by (subst and_nat_rec) simp
    with less.prems have "m = 0" by (simp add: static_assert_def)
    then have "N = 2 ^ 0" using m by simp
    then show ?thesis by blast
  qed
qed

text \<open>So the mask is the remainder modulo the capacity.\<close>

lemma and_mask_mod: "static_assert N \<Longrightarrow> x AND (N - 1) = x mod N"
proof -
  assume "static_assert N"
  then obtain k where k: "N = 2 ^ k" using static_assert_pow2 by blast
  have "x AND (N - 1) = x AND mask k" by (simp add: k mask_eq_exp_minus_1)
  also have "\<dots> = take_bit k x" by (simp add: take_bit_eq_mask)
  also have "\<dots> = x mod N" by (simp add: take_bit_eq_mod k)
  finally show ?thesis .
qed

lemma static_assert_nonzero: "static_assert N \<Longrightarrow> N \<noteq> 0"
  by (simp add: static_assert_def)

section \<open>The index invariant\<close>

lemma idx_inv_constructed: "N \<noteq> 0 \<Longrightarrow> idx_inv N (constructed b)"
  by (simp add: idx_inv_def constructed_def)

lemma idx_inv_put: "N \<noteq> 0 \<Longrightarrow> idx_inv N rb \<Longrightarrow> idx_inv N (snd (put N ao lk item rb))"
  by (simp add: idx_inv_def put_def and_mask_less_Suc Let_def)

lemma idx_inv_put_copy: "idx_inv N rb \<Longrightarrow> idx_inv N (fst (put_copy N items n rb))"
  by (auto simp: idx_inv_def put_copy_def unsafe_mark_full_def Let_def)

lemma idx_inv_put_many:
  "N \<noteq> 0 \<Longrightarrow> idx_inv N rb \<Longrightarrow> idx_inv N (snd (put_many N ao lk items n rb))"
proof -
  assume N: "N \<noteq> 0" and inv: "idx_inv N rb"
  let ?rb1 = "rb\<lparr>read_index := (read_index rb + min n N) AND (N - 1)\<rparr>"
  have "idx_inv N ?rb1" using N inv by (simp add: idx_inv_def and_mask_less_Suc)
  then have "idx_inv N (fst (put_copy N items n ?rb1))" by (rule idx_inv_put_copy)
  moreover have "idx_inv N (fst (put_copy N items n rb))" using inv by (rule idx_inv_put_copy)
  ultimately show ?thesis using inv
    by (simp add: put_many_def split_beta)
qed

lemma idx_inv_get: "N \<noteq> 0 \<Longrightarrow> idx_inv N rb \<Longrightarrow> idx_inv N (snd (get N lk T0 rb))"
  by (simp add: idx_inv_def get_def and_mask_less_Suc)

lemma idx_inv_get_many: "idx_inv N rb \<Longrightarrow> idx_inv N (snd (snd (get_many N lk out n rb)))"
  by (auto simp: idx_inv_def get_many_def unsafe_mark_empty_def unsafe_is_empty_def Let_def)

lemma idx_inv_reset: "idx_inv N rb \<Longrightarrow> idx_inv N (snd (reset lk rb))"
  by (simp add: idx_inv_def reset_def)

lemma idx_inv_exec: "N \<noteq> 0 \<Longrightarrow> idx_inv N rb \<Longrightarrow> idx_inv N (exec N ao T0 rb x)"
  by (cases x)
    (simp_all add: idx_inv_put idx_inv_put_many idx_inv_get idx_inv_get_many idx_inv_reset)

lemma idx_inv_run: "N \<noteq> 0 \<Longrightarrow> idx_inv N rb \<Longrightarrow> idx_inv N (run N ao T0 ops rb)"
  unfolding run_def by (induction ops arbitrary: rb) (simp_all add: idx_inv_exec)

lemma unsafe_level_le: "idx_inv N rb \<Longrightarrow> unsafe_level N rb \<le> N"
  by (auto simp: idx_inv_def unsafe_level_def)

text \<open>
  Claim C9. The constructed buffer has both indices at 0, hence below the capacity, and
  single put, bulk put, single get, bulk get and reset each take a state whose
  \<open>write_index\<close> and \<open>read_index\<close> are below the capacity to a state where they still are
  (whatever the lock returns and whatever the arguments are).
\<close>

theorem C9_indices_stay_in_range:
  "static_assert N \<Longrightarrow>
   write_index (constructed b) = 0 \<and> read_index (constructed b) = 0
   \<and> idx_inv N (constructed b)
   \<and> (idx_inv N rb \<longrightarrow>
        idx_inv N (snd (put N ao lk item rb))
      \<and> idx_inv N (snd (put_many N ao lk items n rb))
      \<and> idx_inv N (snd (get N lk T0 rb))
      \<and> idx_inv N (snd (snd (get_many N lk out m rb)))
      \<and> idx_inv N (snd (reset lk rb)))"
proof -
  assume "static_assert N"
  then have N: "N \<noteq> 0" by (rule static_assert_nonzero)
  have c: "write_index (constructed b) = 0 \<and> read_index (constructed b) = 0"
    by (simp add: constructed_def)
  show ?thesis
    using N c
    by (simp add: idx_inv_constructed idx_inv_put idx_inv_put_many idx_inv_get
        idx_inv_get_many idx_inv_reset)
qed

theorem C9_indices_stay_in_range_witness:
  "static_assert 4
   \<and> idx_inv 4 (constructed [0, 0, 0, 0 :: int])
   \<and> idx_inv 4 (snd (put 4 False True 7 (constructed [0, 0, 0, 0 :: int])))
   \<and> idx_inv 4 (snd (put_many 4 False True [1, 2, 3, 4, 5] 5 (constructed [0, 0, 0, 0 :: int])))
   \<and> idx_inv 4 (snd (get 4 True 0 (constructed [0, 0, 0, 0 :: int])))
   \<and> idx_inv 4 (snd (snd (get_many 4 True [0, 0] 2 (constructed [0, 0, 0, 0 :: int]))))
   \<and> idx_inv 4 (snd (reset True (constructed [0, 0, 0, 0 :: int])))"
proof -
  have sa: "static_assert 4" by (simp add: static_assert_def)
  show ?thesis
    using sa C9_indices_stay_in_range [OF sa, of "[0, 0, 0, 0 :: int]"
        "constructed [0, 0, 0, 0 :: int]" False True 7 "[1, 2, 3, 4, 5]" 5 0 "[0, 0]" 2]
    by simp
qed

section \<open>Level and available\<close>

text \<open>
  Claim C7. In every state reached from the constructed buffer by a sequence of puts, bulk
  puts, gets, bulk gets and resets, \<open>level()\<close> and \<open>available()\<close> called with the lock free
  both succeed, and their values add up to the capacity.
\<close>

theorem C7_level_plus_available:
  "static_assert N \<Longrightarrow>
   error (level N True (run N ao T0 ops (constructed b))) = RB_ERROR_NONE
   \<and> error (available N True (run N ao T0 ops (constructed b))) = RB_ERROR_NONE
   \<and> val (level N True (run N ao T0 ops (constructed b)))
       + val (available N True (run N ao T0 ops (constructed b))) = N"
proof -
  assume sa: "static_assert N"
  let ?rb = "run N ao T0 ops (constructed b)"
  have "idx_inv N ?rb"
    using sa by (simp add: idx_inv_run idx_inv_constructed static_assert_nonzero)
  then have "unsafe_level N ?rb \<le> N" by (rule unsafe_level_le)
  then show ?thesis by (simp add: level_def available_def)
qed

theorem C7_level_plus_available_witness:
  "static_assert 4
   \<and> val (level 4 True (run 4 False 0 [Put True 7, PutMany True [8, 9] 2, Get True]
          (constructed [0, 0, 0, 0 :: int]))) = 2
   \<and> val (available 4 True (run 4 False 0 [Put True 7, PutMany True [8, 9] 2, Get True]
          (constructed [0, 0, 0, 0 :: int]))) = 2"
proof -
  have sa: "static_assert 4" by (simp add: static_assert_def)
  have l: "val (level 4 True (run 4 False 0 [Put True 7, PutMany True [8, 9] 2, Get True]
          (constructed [0, 0, 0, 0 :: int]))) = 2"
    by code_simp
  show ?thesis
    using sa l C7_level_plus_available [OF sa, of False 0
        "[Put True 7, PutMany True [8, 9] 2, Get True]" "[0, 0, 0, 0 :: int]"]
    by simp
qed

section \<open>Puts into a full buffer\<close>

text \<open>
  Claim C5. On a full buffer with \<open>allow_overwrite\<close> false and the lock acquired, the bulk
  put of any \<open>n\<close> items writes nothing: it returns the state it was given, with error
  \<open>RB_ERROR_NONE\<close> and count 0. The single-item put on the same buffer returns
  \<open>RB_ERROR_ILLEGAL\<close> (and also leaves the state as it was).
\<close>

theorem C5_bulk_put_full_no_overwrite:
  "full rb \<Longrightarrow>
   put_many N False True items n rb = (\<lparr>error = RB_ERROR_NONE, val = 0\<rparr>, rb)
   \<and> put N False True item rb = (RB_ERROR_ILLEGAL, rb)"
  by (simp add: put_many_def put_def)

theorem C5_bulk_put_full_no_overwrite_witness:
  "full \<lparr>buffer = [1, 2, 3, 4 :: int], write_index = 2, read_index = 2, full = True\<rparr>
   \<and> put_many 4 False True [5, 6] 2
         \<lparr>buffer = [1, 2, 3, 4 :: int], write_index = 2, read_index = 2, full = True\<rparr>
       = (\<lparr>error = RB_ERROR_NONE, val = 0\<rparr>,
          \<lparr>buffer = [1, 2, 3, 4], write_index = 2, read_index = 2, full = True\<rparr>)
   \<and> put 4 False True 5
         \<lparr>buffer = [1, 2, 3, 4 :: int], write_index = 2, read_index = 2, full = True\<rparr>
       = (RB_ERROR_ILLEGAL,
          \<lparr>buffer = [1, 2, 3, 4], write_index = 2, read_index = 2, full = True\<rparr>)"
proof -
  have f: "full \<lparr>buffer = [1, 2, 3, 4 :: int], write_index = 2, read_index = 2, full = True\<rparr>"
    by simp
  show ?thesis
    using f C5_bulk_put_full_no_overwrite [OF f, of 4 "[5, 6]" 2 5]
    by simp
qed

section \<open>Overwriting single put\<close>

lemma mod_add_neq:
  fixes r j N :: nat
  assumes "r < N" "0 < j" "j < N"
  shows "(r + j) mod N \<noteq> r"
proof (cases "r + j < N")
  case True
  then show ?thesis using assms by simp
next
  case False
  then have "(r + j) mod N = r + j - N" using assms by (simp add: mod_if)
  then show ?thesis using assms False by simp
qed

lemma put_full_overwrite:
  assumes sa: "static_assert N" and f: "full rb" and wr: "write_index rb = read_index rb"
  shows "put N True True item rb =
     (RB_ERROR_OVERWRITE,
      \<lparr>buffer = (buffer rb)[read_index rb := item],
       write_index = (read_index rb + 1) mod N,
       read_index = (read_index rb + 1) mod N,
       full = True\<rparr>)"
  using f wr and_mask_mod [OF sa, of "read_index rb + 1"]
  by (simp add: put_def Let_def)

lemma contents_put_full_overwrite:
  assumes N: "N \<noteq> 0" and r: "r < N" and len: "length b = N"
  shows "contents N \<lparr>buffer = b[r := item], write_index = (r + 1) mod N,
            read_index = (r + 1) mod N, full = True\<rparr>
         = tl (contents N \<lparr>buffer = b, write_index = r, read_index = r, full = True\<rparr>) @ [item]"
proof (rule nth_equalityI)
  show "length (contents N \<lparr>buffer = b[r := item], write_index = (r + 1) mod N,
            read_index = (r + 1) mod N, full = True\<rparr>)
      = length (tl (contents N \<lparr>buffer = b, write_index = r, read_index = r, full = True\<rparr>) @ [item])"
    using N by (simp add: contents_def unsafe_level_def)
next
  fix i
  assume "i < length (contents N \<lparr>buffer = b[r := item], write_index = (r + 1) mod N,
            read_index = (r + 1) mod N, full = True\<rparr>)"
  then have i: "i < N" by (simp add: contents_def unsafe_level_def)
  have idx: "((r + 1) mod N + i) mod N = (r + (i + 1)) mod N"
  proof -
    have "((r + 1) mod N + i) mod N = ((r + 1) + i) mod N" by (rule mod_add_left_eq)
    then show ?thesis by (simp add: add.commute add.left_commute)
  qed
  show "contents N \<lparr>buffer = b[r := item], write_index = (r + 1) mod N,
            read_index = (r + 1) mod N, full = True\<rparr> ! i
      = (tl (contents N \<lparr>buffer = b, write_index = r, read_index = r, full = True\<rparr>) @ [item]) ! i"
  proof (cases "i = N - 1")
    case True
    then have "(r + (i + 1)) mod N = r" using N r by simp
    then show ?thesis
      using True i r len idx by (simp add: contents_def unsafe_level_def nth_append)
  next
    case False
    then have i1: "i + 1 < N" using i by simp
    then have "(r + (i + 1)) mod N \<noteq> r" using mod_add_neq [of r N "i + 1"] r by simp
    moreover have "i < N - Suc 0" using i1 by simp
    ultimately show ?thesis
      using i i1 idx len by (simp add: contents_def unsafe_level_def nth_append nth_tl)
  qed
qed


lemma contents_full_nth:
  "full rb \<Longrightarrow> i < N \<Longrightarrow> contents N rb ! i = buffer rb ! ((read_index rb + i) mod N)"
  by (simp add: contents_def unsafe_level_def)

text \<open>
  The single put on a buffer that holds \<open>buffer_size\<close> elements: the flag is set and
  \<open>write_index\<close> equals \<open>read_index\<close>. With \<open>allow_overwrite\<close> true and the lock acquired
  it returns \<open>RB_ERROR_OVERWRITE\<close>; \<open>level()\<close> is the capacity before and after; the unread
  elements afterwards are the earlier ones without the oldest, followed by the new item.
  With a capacity of at least 2 the next \<open>get()\<close> returns what a second \<open>get()\<close> would
  have returned before the put.
\<close>

lemma put_overwrite_holding_N:
  assumes sa: "static_assert N"
    and f: "full rb" and wr: "write_index rb = read_index rb"
    and r: "read_index rb < N" and len: "length (buffer rb) = N"
  shows "fst (put N True True item rb) = RB_ERROR_OVERWRITE
     \<and> level N True rb = \<lparr>error = RB_ERROR_NONE, val = N\<rparr>
     \<and> level N True (snd (put N True True item rb)) = \<lparr>error = RB_ERROR_NONE, val = N\<rparr>
     \<and> contents N (snd (put N True True item rb)) = tl (contents N rb) @ [item]
     \<and> (2 \<le> N \<longrightarrow>
          fst (get N True T0 rb) = \<lparr>error = RB_ERROR_NONE, val = contents N rb ! 0\<rparr>
        \<and> fst (get N True T0 (snd (get N True T0 rb)))
            = \<lparr>error = RB_ERROR_NONE, val = contents N rb ! 1\<rparr>
        \<and> fst (get N True T0 (snd (put N True True item rb)))
            = \<lparr>error = RB_ERROR_NONE, val = contents N rb ! 1\<rparr>)"
proof -
  let ?r = "read_index rb"
  let ?rb' = "\<lparr>buffer = (buffer rb)[?r := item], write_index = (?r + 1) mod N,
               read_index = (?r + 1) mod N, full = True\<rparr>"
  have N: "N \<noteq> 0" using sa by (rule static_assert_nonzero)
  have p: "put N True True item rb = (RB_ERROR_OVERWRITE, ?rb')"
    using sa f wr by (rule put_full_overwrite)
  have rb: "rb = \<lparr>buffer = buffer rb, write_index = ?r, read_index = ?r, full = True\<rparr>"
    using f wr by simp
  have c: "contents N ?rb' = tl (contents N rb) @ [item]"
    using contents_put_full_overwrite [OF N r len, of item] rb by simp
  have l0: "level N True rb = \<lparr>error = RB_ERROR_NONE, val = N\<rparr>"
    using f by (simp add: level_def unsafe_level_def)
  have l1: "level N True ?rb' = \<lparr>error = RB_ERROR_NONE, val = N\<rparr>"
    by (simp add: level_def unsafe_level_def)
  have g: "fst (get N True T0 rb) = \<lparr>error = RB_ERROR_NONE, val = contents N rb ! 0\<rparr>
        \<and> fst (get N True T0 (snd (get N True T0 rb)))
            = \<lparr>error = RB_ERROR_NONE, val = contents N rb ! 1\<rparr>
        \<and> fst (get N True T0 ?rb')
            = \<lparr>error = RB_ERROR_NONE, val = contents N rb ! 1\<rparr>" if N2: "2 \<le> N"
  proof -
    have ne: "(?r + 1) mod N \<noteq> ?r" using mod_add_neq [of ?r N 1] r N2 by simp
    have lt: "(?r + 1) mod N < N" using N by simp
    have c0: "contents N rb ! 0 = buffer rb ! ?r"
      using contents_full_nth [OF f, of 0 N] N r by simp
    have c1: "contents N rb ! 1 = buffer rb ! ((?r + 1) mod N)"
      using contents_full_nth [OF f, of 1 N] N2 by simp
    have g1: "get N True T0 rb =
        (\<lparr>error = RB_ERROR_NONE, val = buffer rb ! ?r\<rparr>,
         rb\<lparr>read_index := (?r + 1) mod N, full := False\<rparr>)"
      using f and_mask_mod [OF sa, of "?r + 1"] by (simp add: get_def unsafe_is_empty_def)
    have g2: "fst (get N True T0 (rb\<lparr>read_index := (?r + 1) mod N, full := False\<rparr>))
        = \<lparr>error = RB_ERROR_NONE, val = buffer rb ! ((?r + 1) mod N)\<rparr>"
      using ne wr by (simp add: get_def unsafe_is_empty_def)
    have g3: "fst (get N True T0 ?rb')
        = \<lparr>error = RB_ERROR_NONE, val = buffer rb ! ((?r + 1) mod N)\<rparr>"
      using ne by (simp add: get_def unsafe_is_empty_def)
    show ?thesis using g1 g2 g3 c0 c1 by simp
  qed
  show ?thesis using p c l0 l1 g by simp
qed

text \<open>
  Claim C6 at a full buffer the code reaches. With capacity 4 and \<open>allow_overwrite\<close> true,
  the bulk put of \<open>[1, 2, 3, 4]\<close> fills the buffer and the bulk get of 2 items reads 1
  and 2 but leaves the full flag set: \<open>is_full()\<close> is true and \<open>level()\<close> is 4, with
  \<open>write_index = 0\<close> and \<open>read_index = 2\<close>. The single put of 5 (lock acquired) returns
  \<open>RB_ERROR_OVERWRITE\<close> and moves \<open>read_index\<close> past the element 3, but the level
  afterwards is 2 and not the capacity, and the full flag is cleared.
\<close>

theorem C6_overwrite_put_level_drops:
  "run 4 True 0 [PutMany True [1, 2, 3, 4] 4, GetMany True [0, 0] 2]
       (constructed [0, 0, 0, 0 :: int])
     = \<lparr>buffer = [1, 2, 3, 4], write_index = 0, read_index = 2, full = True\<rparr>
   \<and> fst (snd (get_many 4 True [0, 0] 2
         (run 4 True 0 [PutMany True [1, 2, 3, 4] 4] (constructed [0, 0, 0, 0 :: int]))))
     = [1, 2]
   \<and> is_full \<lparr>buffer = [1, 2, 3, 4 :: int], write_index = 0, read_index = 2, full = True\<rparr>
   \<and> level 4 True \<lparr>buffer = [1, 2, 3, 4 :: int], write_index = 0, read_index = 2, full = True\<rparr>
     = \<lparr>error = RB_ERROR_NONE, val = 4\<rparr>
   \<and> put 4 True True 5
         \<lparr>buffer = [1, 2, 3, 4 :: int], write_index = 0, read_index = 2, full = True\<rparr>
     = (RB_ERROR_OVERWRITE,
        \<lparr>buffer = [5, 2, 3, 4], write_index = 1, read_index = 3, full = False\<rparr>)
   \<and> level 4 True \<lparr>buffer = [5, 2, 3, 4 :: int], write_index = 1, read_index = 3, full = False\<rparr>
     = \<lparr>error = RB_ERROR_NONE, val = 2\<rparr>
   \<and> fst (get 4 True 0
         \<lparr>buffer = [5, 2, 3, 4 :: int], write_index = 1, read_index = 3, full = False\<rparr>)
     = \<lparr>error = RB_ERROR_NONE, val = 4\<rparr>"
  by code_simp

section \<open>Bulk put that fills the buffer\<close>

lemma put_many_fill:
  assumes nf: "\<not> full rb" and rw: "read_index rb \<le> write_index rb"
    and n1: "N - write_index rb \<le> n" and n2: "read_index rb \<le> n - (N - write_index rb)"
  shows "put_many N ao True items n rb =
     (\<lparr>error = RB_ERROR_NONE, val = N - write_index rb + read_index rb\<rparr>,
      \<lparr>buffer = memcpy (memcpy (buffer rb) (write_index rb) items 0 (N - write_index rb))
                   0 items (N - write_index rb) (read_index rb),
       write_index = read_index rb, read_index = read_index rb, full = True\<rparr>)"
  using assms by (simp add: put_many_def put_copy_def unsafe_mark_full_def Let_def)

text \<open>
  Claim C3, as the code has it. Let the buffer be not full with \<open>read_index \<le> write_index\<close>,
  and let a bulk put of \<open>n\<close> items (lock acquired) reach the end of the array
  (\<open>buffer_size - write_index \<le> n\<close>) with a remainder of at least \<open>read_index\<close>. Then the
  first \<open>buffer_size - write_index\<close> items go to the end of the array, the next
  \<open>read_index\<close> items to its start, the slots from \<open>read_index\<close> up to \<open>write_index\<close> keep
  their values, and the buffer is marked full with \<open>write_index = read_index\<close>. The count
  returned is \<open>buffer_size - write_index + read_index\<close>: it is at most \<open>n\<close>, and it is
  strictly less than \<open>n\<close> exactly when the remainder exceeds \<open>read_index\<close>.
\<close>

theorem C3_bulk_put_fills:
  assumes inv: "idx_inv N rb" and len: "length (buffer rb) = N"
    and nf: "\<not> full rb" and rw: "read_index rb \<le> write_index rb"
    and n1: "N - write_index rb \<le> n" and n2: "read_index rb \<le> n - (N - write_index rb)"
  shows "error (fst (put_many N ao True items n rb)) = RB_ERROR_NONE
     \<and> val (fst (put_many N ao True items n rb)) = N - write_index rb + read_index rb
     \<and> val (fst (put_many N ao True items n rb)) \<le> n
     \<and> (val (fst (put_many N ao True items n rb)) < n
          \<longleftrightarrow> read_index rb < n - (N - write_index rb))
     \<and> full (snd (put_many N ao True items n rb))
     \<and> write_index (snd (put_many N ao True items n rb)) = read_index rb
     \<and> read_index (snd (put_many N ao True items n rb)) = read_index rb
     \<and> length (buffer (snd (put_many N ao True items n rb))) = N
     \<and> (\<forall>i<N. buffer (snd (put_many N ao True items n rb)) ! i =
          (if write_index rb \<le> i then items ! (i - write_index rb)
           else if i < read_index rb then items ! (N - write_index rb + i)
           else buffer rb ! i))"
proof -
  note p = put_many_fill [OF nf rw n1 n2, of ao items]
  have w: "write_index rb < N" and r: "read_index rb < N"
    using inv by (simp_all add: idx_inv_def)
  have a: "N - write_index rb + read_index rb \<le> n" using n1 n2 by simp
  have b: "N - write_index rb + read_index rb < n \<longleftrightarrow> read_index rb < n - (N - write_index rb)"
    using n1 by auto
  have c: "memcpy (memcpy (buffer rb) (write_index rb) items 0 (N - write_index rb))
                   0 items (N - write_index rb) (read_index rb) ! i =
          (if write_index rb \<le> i then items ! (i - write_index rb)
           else if i < read_index rb then items ! (N - write_index rb + i)
           else buffer rb ! i)" if "i < N" for i
    using that len w r rw by (simp add: nth_memcpy length_memcpy)
  show ?thesis
    unfolding p using a b c len by (simp add: length_memcpy)
qed

theorem C3_bulk_put_fills_witness:
  "idx_inv 4 (run 4 False 0 [Put True 1, Put True 2, Get True] (constructed [0, 0, 0, 0 :: int]))
   \<and> val (fst (put_many 4 False True [7, 8, 9, 10] 4
         (run 4 False 0 [Put True 1, Put True 2, Get True] (constructed [0, 0, 0, 0 :: int])))) = 3
   \<and> buffer (snd (put_many 4 False True [7, 8, 9, 10] 4
         (run 4 False 0 [Put True 1, Put True 2, Get True] (constructed [0, 0, 0, 0 :: int]))))
       = [9, 2, 7, 8]"
proof -
  let ?rb = "run 4 False 0 [Put True 1, Put True 2, Get True] (constructed [0, 0, 0, 0 :: int])"
  have rb: "?rb = \<lparr>buffer = [1, 2, 0, 0], write_index = 2, read_index = 1, full = False\<rparr>"
    by code_simp
  have inv: "idx_inv 4 ?rb" unfolding rb by (simp add: idx_inv_def)
  have len: "length (buffer ?rb) = 4" unfolding rb by simp
  have nf: "\<not> full ?rb" unfolding rb by simp
  have rw: "read_index ?rb \<le> write_index ?rb" unfolding rb by simp
  have n1: "4 - write_index ?rb \<le> 4" unfolding rb by simp
  have n2: "read_index ?rb \<le> 4 - (4 - write_index ?rb)" unfolding rb by simp
  have b: "buffer (snd (put_many 4 False True [7, 8, 9, 10] 4 ?rb)) = [9, 2, 7, 8]"
    by code_simp
  show ?thesis
    using inv b C3_bulk_put_fills [OF inv len nf rw n1 n2, of False "[7, 8, 9, 10]"]
    unfolding rb by simp
qed

text \<open>
  Claim C3 as the specification words it requires a count strictly below \<open>n\<close>. With
  capacity 4, \<open>read_index = 1\<close> and \<open>write_index = 2\<close>, a bulk put of 3 items passes the end
  of the array with remainder 1, which reaches \<open>read_index\<close>: the buffer becomes full and
  all 3 items are written.
\<close>

theorem C3_strictly_less_counterexample:
  "\<not> full (run 4 False 0 [Put True 1, Put True 2, Get True] (constructed [0, 0, 0, 0 :: int]))
   \<and> read_index (run 4 False 0 [Put True 1, Put True 2, Get True] (constructed [0, 0, 0, 0 :: int]))
       \<le> write_index (run 4 False 0 [Put True 1, Put True 2, Get True] (constructed [0, 0, 0, 0 :: int]))
   \<and> 4 - write_index (run 4 False 0 [Put True 1, Put True 2, Get True] (constructed [0, 0, 0, 0 :: int])) < 3
   \<and> read_index (run 4 False 0 [Put True 1, Put True 2, Get True] (constructed [0, 0, 0, 0 :: int]))
       \<le> 3 - (4 - write_index (run 4 False 0 [Put True 1, Put True 2, Get True] (constructed [0, 0, 0, 0 :: int])))
   \<and> full (snd (put_many 4 False True [7, 8, 9] 3
         (run 4 False 0 [Put True 1, Put True 2, Get True] (constructed [0, 0, 0, 0 :: int]))))
   \<and> \<not> val (fst (put_many 4 False True [7, 8, 9] 3
         (run 4 False 0 [Put True 1, Put True 2, Get True] (constructed [0, 0, 0, 0 :: int])))) < 3"
  by code_simp

section \<open>What the bulk get writes to the caller's array\<close>

lemma get_many_error: "error (fst (get_many N True out n rb)) = RB_ERROR_NONE"
  by (simp add: get_many_def Let_def)

lemma get_many_val_le: "val (fst (get_many N True out n rb)) \<le> n"
  by (auto simp: get_many_def Let_def)

lemma get_many_val_indep:
  "val (fst (get_many N True out2 n rb)) = val (fst (get_many N True out n rb))"
  by (simp add: get_many_def Let_def)

lemma get_many_length: "length (fst (snd (get_many N lk out n rb))) = length out"
  by (simp add: get_many_def Let_def length_memcpy)

lemma get_many_frame:
  "val (fst (get_many N True out n rb)) \<le> i \<Longrightarrow> i < length out \<Longrightarrow>
   fst (snd (get_many N True out n rb)) ! i = out ! i"
  by (auto simp: get_many_def Let_def nth_memcpy length_memcpy split: if_splits)

lemma get_many_written:
  "length out2 = length out \<Longrightarrow> i < val (fst (get_many N True out n rb)) \<Longrightarrow> i < length out \<Longrightarrow>
   fst (snd (get_many N True out2 n rb)) ! i = fst (snd (get_many N True out n rb)) ! i"
  by (auto simp: get_many_def Let_def nth_memcpy length_memcpy split: if_splits)

text \<open>
  Claim C10. Let both indices be below the capacity and let the caller's array have room
  for the \<open>n\<close> items asked for. A bulk get with the lock acquired succeeds with a count of
  at most \<open>n\<close>; the array keeps its length and every position from the count on keeps its
  value; the count and the first count positions of the result do not depend on what the
  array held before, so these positions, and only these, are written.
\<close>

theorem C10_bulk_get_frame:
  assumes inv: "idx_inv N rb" and room: "n \<le> length out"
  shows "error (fst (get_many N True out n rb)) = RB_ERROR_NONE
     \<and> val (fst (get_many N True out n rb)) \<le> n
     \<and> length (fst (snd (get_many N True out n rb))) = length out
     \<and> (\<forall>i. val (fst (get_many N True out n rb)) \<le> i \<and> i < length out \<longrightarrow>
           fst (snd (get_many N True out n rb)) ! i = out ! i)
     \<and> (\<forall>out2. length out2 = length out \<longrightarrow>
           val (fst (get_many N True out2 n rb)) = val (fst (get_many N True out n rb))
         \<and> take (val (fst (get_many N True out n rb))) (fst (snd (get_many N True out2 n rb)))
           = take (val (fst (get_many N True out n rb))) (fst (snd (get_many N True out n rb))))"
proof -
  let ?c = "val (fst (get_many N True out n rb))"
  have le: "?c \<le> n" by (rule get_many_val_le)
  have tk: "take ?c (fst (snd (get_many N True out2 n rb)))
      = take ?c (fst (snd (get_many N True out n rb)))" if l2: "length out2 = length out" for out2
  proof (rule nth_equalityI)
    show "length (take ?c (fst (snd (get_many N True out2 n rb))))
        = length (take ?c (fst (snd (get_many N True out n rb))))"
      using l2 by (simp add: get_many_length)
  next
    fix i
    assume "i < length (take ?c (fst (snd (get_many N True out2 n rb))))"
    then have i: "i < ?c" and i2: "i < length out" using l2 by (simp_all add: get_many_length)
    show "take ?c (fst (snd (get_many N True out2 n rb))) ! i
        = take ?c (fst (snd (get_many N True out n rb))) ! i"
      using i get_many_written [OF l2 i i2] by simp
  qed
  show ?thesis
  proof (intro conjI allI impI)
    show "error (fst (get_many N True out n rb)) = RB_ERROR_NONE" by (rule get_many_error)
    show "?c \<le> n" by (rule le)
    show "length (fst (snd (get_many N True out n rb))) = length out" by (rule get_many_length)
    show "fst (snd (get_many N True out n rb)) ! i = out ! i"
      if "?c \<le> i \<and> i < length out" for i
      using that get_many_frame [of N out n rb i] by blast
    show "val (fst (get_many N True out2 n rb)) = ?c" for out2
      by (rule get_many_val_indep)
    show "take ?c (fst (snd (get_many N True out2 n rb)))
        = take ?c (fst (snd (get_many N True out n rb)))" if "length out2 = length out" for out2
      using that by (rule tk)
  qed
qed

theorem C10_bulk_get_frame_witness:
  "idx_inv 4 \<lparr>buffer = [5, 2, 3, 4 :: int], write_index = 1, read_index = 2, full = False\<rparr>
   \<and> (5::nat) \<le> length [70, 71, 72, 73, 74 :: int]
   \<and> val (fst (get_many 4 True [70, 71, 72, 73, 74] 5
        \<lparr>buffer = [5, 2, 3, 4 :: int], write_index = 1, read_index = 2, full = False\<rparr>)) = 3
   \<and> fst (snd (get_many 4 True [70, 71, 72, 73, 74] 5
        \<lparr>buffer = [5, 2, 3, 4 :: int], write_index = 1, read_index = 2, full = False\<rparr>)) ! 3 = 73
   \<and> fst (snd (get_many 4 True [70, 71, 72, 73, 74] 5
        \<lparr>buffer = [5, 2, 3, 4 :: int], write_index = 1, read_index = 2, full = False\<rparr>)) ! 4 = 74
   \<and> take 3 (fst (snd (get_many 4 True [0, 0, 0, 0, 0] 5
        \<lparr>buffer = [5, 2, 3, 4 :: int], write_index = 1, read_index = 2, full = False\<rparr>)))
     = take 3 (fst (snd (get_many 4 True [70, 71, 72, 73, 74] 5
        \<lparr>buffer = [5, 2, 3, 4 :: int], write_index = 1, read_index = 2, full = False\<rparr>)))"
proof -
  let ?rb = "\<lparr>buffer = [5, 2, 3, 4 :: int], write_index = 1, read_index = 2, full = False\<rparr>"
  let ?out = "[70, 71, 72, 73, 74 :: int]"
  have inv: "idx_inv 4 ?rb" by (simp add: idx_inv_def)
  have room: "(5::nat) \<le> length ?out" by simp
  have v: "val (fst (get_many 4 True ?out 5 ?rb)) = 3" by code_simp
  note rest = C10_bulk_get_frame [OF inv room, THEN conjunct2, THEN conjunct2, THEN conjunct2,
      unfolded v]
  note fr = rest [THEN conjunct1]
  have "fst (snd (get_many 4 True ?out 5 ?rb)) ! 3 = ?out ! 3" using fr by simp
  moreover have "fst (snd (get_many 4 True ?out 5 ?rb)) ! 4 = ?out ! 4" using fr by simp
  moreover have "take 3 (fst (snd (get_many 4 True [0, 0, 0, 0, 0] 5 ?rb)))
      = take 3 (fst (snd (get_many 4 True ?out 5 ?rb)))"
    using rest [THEN conjunct2, THEN spec, of "[0, 0, 0, 0, 0]"] by simp
  ultimately show ?thesis using inv room v by simp
qed

section \<open>Scenarios with capacity 4\<close>

text \<open>
  Claim C2 as the specification words it: overwrite enabled, the bulk put of \<open>[5, 6]\<close>
  into the buffer filled by \<open>[1, 2, 3, 4]\<close> returns count 0 and the gets yield 1, 2, 3, 4.
  The code does not behave so.
\<close>

theorem C2_bulk_put_overwrites_counterexample:
  "full (snd (put_many 4 True True [1, 2, 3, 4] 4 (constructed [0, 0, 0, 0 :: int])))
   \<and> \<not> (val (fst (put_many 4 True True [5, 6] 2
              (snd (put_many 4 True True [1, 2, 3, 4] 4 (constructed [0, 0, 0, 0 :: int]))))) = 0
        \<and> map val (fst (get_loop 4 0 4 (snd (put_many 4 True True [5, 6] 2
              (snd (put_many 4 True True [1, 2, 3, 4] 4 (constructed [0, 0, 0, 0 :: int]))))))) 
            = [1, 2, 3, 4])"
  by code_simp

text \<open>
  Claim C2, as the code has it. Whatever the storage held, the bulk put of \<open>[1, 2, 3, 4]\<close>
  fills the buffer of capacity 4. With \<open>allow_overwrite\<close> true the bulk put of \<open>[5, 6]\<close>
  then reports \<open>RB_ERROR_OVERWRITE\<close> with count 2, having moved \<open>read_index\<close> past the two
  oldest elements, and four gets yield 3, 4, 5, 6. With \<open>allow_overwrite\<close> false it
  reports \<open>RB_ERROR_NONE\<close> with count 0 and four gets yield 1, 2, 3, 4.
\<close>

theorem C2_bulk_put_into_full_scenario:
  "put_many 4 ao True [1, 2, 3, 4] 4 (constructed [a, b, c, d :: int])
     = (\<lparr>error = RB_ERROR_NONE, val = 4\<rparr>,
        \<lparr>buffer = [1, 2, 3, 4], write_index = 0, read_index = 0, full = True\<rparr>)
   \<and> put_many 4 True True [5, 6] 2
        \<lparr>buffer = [1, 2, 3, 4 :: int], write_index = 0, read_index = 0, full = True\<rparr>
     = (\<lparr>error = RB_ERROR_OVERWRITE, val = 2\<rparr>,
        \<lparr>buffer = [5, 6, 3, 4], write_index = 2, read_index = 2, full = True\<rparr>)
   \<and> fst (get_loop 4 T0 4
        \<lparr>buffer = [5, 6, 3, 4 :: int], write_index = 2, read_index = 2, full = True\<rparr>)
     = [\<lparr>error = RB_ERROR_NONE, val = 3\<rparr>, \<lparr>error = RB_ERROR_NONE, val = 4\<rparr>,
        \<lparr>error = RB_ERROR_NONE, val = 5\<rparr>, \<lparr>error = RB_ERROR_NONE, val = 6\<rparr>]
   \<and> put_many 4 False True [5, 6] 2
        \<lparr>buffer = [1, 2, 3, 4 :: int], write_index = 0, read_index = 0, full = True\<rparr>
     = (\<lparr>error = RB_ERROR_NONE, val = 0\<rparr>,
        \<lparr>buffer = [1, 2, 3, 4], write_index = 0, read_index = 0, full = True\<rparr>)
   \<and> fst (get_loop 4 T0 4
        \<lparr>buffer = [1, 2, 3, 4 :: int], write_index = 0, read_index = 0, full = True\<rparr>)
     = [\<lparr>error = RB_ERROR_NONE, val = 1\<rparr>, \<lparr>error = RB_ERROR_NONE, val = 2\<rparr>,
        \<lparr>error = RB_ERROR_NONE, val = 3\<rparr>, \<lparr>error = RB_ERROR_NONE, val = 4\<rparr>]"
  by code_simp

text \<open>
  Claim C1 at a wrapped buffer. After bulk put of \<open>[1, 2, 3]\<close>, bulk get of 2 (which
  yields 1, 2) and bulk put of \<open>[4, 5]\<close>, the buffer of capacity 4 has \<open>write_index = 1\<close>
  below \<open>read_index = 2\<close> and holds 3, 4, 5. A bulk get of 1 item, fewer than the 2 slots
  before the end of the array, copies from \<open>buffer[write_index]\<close>: the caller receives 2,
  which was read before, where the oldest unread element is 3.
\<close>

theorem C1_wrapped_bulk_get_reads_at_write_index:
  "run 4 False 0 [PutMany True [1, 2, 3] 3, GetMany True [0, 0] 2, PutMany True [4, 5] 2]
       (constructed [0, 0, 0, 0 :: int])
     = \<lparr>buffer = [5, 2, 3, 4], write_index = 1, read_index = 2, full = False\<rparr>
   \<and> fst (snd (get_many 4 True [0, 0] 2
         (run 4 False 0 [PutMany True [1, 2, 3] 3] (constructed [0, 0, 0, 0 :: int])))) = [1, 2]
   \<and> contents 4 \<lparr>buffer = [5, 2, 3, 4 :: int], write_index = 1, read_index = 2, full = False\<rparr>
     = [3, 4, 5]
   \<and> get_many 4 True [0] 1
         \<lparr>buffer = [5, 2, 3, 4 :: int], write_index = 1, read_index = 2, full = False\<rparr>
     = (\<lparr>error = RB_ERROR_NONE, val = 1\<rparr>, [2],
        \<lparr>buffer = [5, 2, 3, 4], write_index = 1, read_index = 3, full = False\<rparr>)"
  by code_simp

text \<open>
  Claim C4 on two sequences that never hold more than 4 elements. First: single puts of
  1, 2, 3, two single gets (1 and 2), single puts of 4 and 5; the level is 3 and a bulk get
  of 1 item yields 2 where FIFO order requires 3. Second: bulk put of \<open>[1, 2, 3, 4]\<close> and
  bulk get of 2 leave the full flag set with two elements unread, and the single put of 5
  is refused with \<open>RB_ERROR_ILLEGAL\<close>.
\<close>

theorem C4_fifo_broken_by_bulk_get:
  "run 4 False 0 [Put True 1, Put True 2, Put True 3, Get True, Get True, Put True 4, Put True 5]
       (constructed [0, 0, 0, 0 :: int])
     = \<lparr>buffer = [5, 2, 3, 4], write_index = 1, read_index = 2, full = False\<rparr>
   \<and> fst (get 4 True 0 (run 4 False 0 [Put True 1, Put True 2, Put True 3]
         (constructed [0, 0, 0, 0 :: int]))) = \<lparr>error = RB_ERROR_NONE, val = 1\<rparr>
   \<and> fst (get 4 True 0 (run 4 False 0 [Put True 1, Put True 2, Put True 3, Get True]
         (constructed [0, 0, 0, 0 :: int]))) = \<lparr>error = RB_ERROR_NONE, val = 2\<rparr>
   \<and> level 4 True \<lparr>buffer = [5, 2, 3, 4 :: int], write_index = 1, read_index = 2, full = False\<rparr>
     = \<lparr>error = RB_ERROR_NONE, val = 3\<rparr>
   \<and> fst (snd (get_many 4 True [0] 1
         \<lparr>buffer = [5, 2, 3, 4 :: int], write_index = 1, read_index = 2, full = False\<rparr>)) = [2]
   \<and> run 4 False 0 [PutMany True [1, 2, 3, 4] 4, GetMany True [0, 0] 2]
       (constructed [0, 0, 0, 0 :: int])
     = \<lparr>buffer = [1, 2, 3, 4], write_index = 0, read_index = 2, full = True\<rparr>
   \<and> put 4 False True 5
         \<lparr>buffer = [1, 2, 3, 4 :: int], write_index = 0, read_index = 2, full = True\<rparr>
     = (RB_ERROR_ILLEGAL,
        \<lparr>buffer = [1, 2, 3, 4], write_index = 0, read_index = 2, full = True\<rparr>)"
  by code_simp

section \<open>Lock acquisition failure\<close>

text \<open>
  Claim C8. When \<open>lock()\<close> returns false, each of put, bulk put, get, bulk get, is\_empty,
  level, available and reset reports \<open>RB_ERROR_TIMEOUT\<close>, and the operations that return a
  state return the one they were given: the storage, both indices and the full flag (and
  the caller's output array of the bulk get) are unchanged.
\<close>

theorem C8_timeout_no_mutation:
  "put N ao False item rb = (RB_ERROR_TIMEOUT, rb)
   \<and> error (fst (put_many N ao False items n rb)) = RB_ERROR_TIMEOUT
   \<and> snd (put_many N ao False items n rb) = rb
   \<and> error (fst (get N False T0 rb)) = RB_ERROR_TIMEOUT
   \<and> snd (get N False T0 rb) = rb
   \<and> error (fst (get_many N False out n rb)) = RB_ERROR_TIMEOUT
   \<and> snd (get_many N False out n rb) = (out, rb)
   \<and> error (is_empty False rb) = RB_ERROR_TIMEOUT
   \<and> error (level N False rb) = RB_ERROR_TIMEOUT
   \<and> error (available N False rb) = RB_ERROR_TIMEOUT
   \<and> reset False rb = (RB_ERROR_TIMEOUT, rb)"
  by (simp add: put_def put_many_def get_def get_many_def is_empty_def level_def
      available_def reset_def)

end
